theory Spec2Isabelle
  imports Main
begin

section \<open>The architecture layering check of check_layer_violations.py\<close>

text \<open>
  The script holds two module-level tables, \<open>SERVICE_LAYERS\<close> (a dict from service name to
  layer number) and \<open>DEPENDENCIES\<close> (a dict from service name to the list of the services
  it depends on), the function \<open>check_dependencies()\<close> that walks \<open>DEPENDENCIES\<close> and
  collects the upward edges, the function \<open>main()\<close> that prints the report, and the
  entry point that turns the number of violations into the exit status.

  Python's unbounded integers are \<open>int\<close>, service names are \<open>string\<close>. A dict with
  its insertion order (\<open>DEPENDENCIES.items()\<close>) is an association list; a dict that is
  only looked up (\<open>SERVICE_LAYERS\<close>) is a map. Standard output is a list of printed
  lines that every function takes and returns extended.
\<close>

subsection \<open>Data\<close>

type_synonym layer_map = "string \<rightharpoonup> int"

type_synonym dependency_map = "(string \<times> string list) list"

text \<open>
  The dict appended at lines 166-172. Its fifth entry, under the key \<open>'violation'\<close>, is
  the text made of \<open>service_layer\<close> and \<open>dep_layer\<close> set into a fixed pattern with an
  arrow between them; the field keeps the two interpolated numbers.
\<close>

record violation_record =
  service :: string
  service_layer :: int
  dependency :: string
  dependency_layer :: int
  violation :: "int \<times> int"

text \<open>
  One constructor for each \<open>print\<close> call of the script, with the values its f-string
  interpolates. The fixed parts of the lines are not ASCII and are left out.
\<close>

datatype printed =
    WarnService string  \<comment> \<open>line 149: warning, the service is not in the layer table\<close>
  | WarnDependency string  \<comment> \<open>line 159: warning, the dependency is not in the layer table\<close>
  | Rule  \<comment> \<open>lines 177, 179, 200: eighty equals signs\<close>
  | Title  \<comment> \<open>line 178\<close>
  | Blank  \<comment> \<open>lines 180, 186, 192, 198: print()\<close>
  | OkNoViolation  \<comment> \<open>line 185\<close>
  | OkDirection  \<comment> \<open>line 187\<close>
  | OkSameOrLower  \<comment> \<open>line 188\<close>
  | OkNoUpward  \<comment> \<open>line 189\<close>
  | ErrorCount nat  \<comment> \<open>line 191: len(violations)\<close>
  | ViolationService nat string int  \<comment> \<open>line 194: index, service, service_layer\<close>
  | ViolationArrow  \<comment> \<open>line 195\<close>
  | ViolationDependency string int  \<comment> \<open>line 196: dependency, dependency_layer\<close>
  | ViolationTag "int \<times> int"  \<comment> \<open>line 197: the 'violation' entry\<close>

type_synonym stdout = "printed list"

subsection \<open>The tables of the script\<close>

text \<open>Lines 8-80. No key occurs twice in the literal, so the first match is the entry.\<close>

definition SERVICE_LAYERS_items :: "(string \<times> int) list" where
  "SERVICE_LAYERS_items = [
     (''eventBus'', 2),
     (''stateManager'', 2),
     (''scrollStrategyManager'', 3),
     (''entryAnimationStrategyManager'', 3),
     (''fileProcessStrategyManager'', 3),
     (''transitionFragmentPool'', 3),
     (''canvasRenderService'', 5),
     (''viewportCalculatorService'', 5),
     (''ppiExtractorService'', 5),
     (''keyboardService'', 6),
     (''fileSaveService'', 6),
     (''messageService'', 6),
     (''loadingService'', 6),
     (''positionSliderService'', 6),
     (''customSelectFactory'', 7),
     (''cardBoundaryEditorFactory'', 7),
     (''colorPickerFactory'', 7),
     (''boundaryEditorManagerFactory'', 7),
     (''entryAnimationHelpDialogsFactory'', 7),
     (''previewManagerFactory'', 10),
     (''validationService'', 9),
     (''stateWatcherService'', 9),
     (''errorDisplayService'', 9),
     (''dialogService'', 9),
     (''tooltipService'', 9),
     (''imageProcessingService'', 10),
     (''scrollAnimationService'', 10),
     (''entryAnimationService'', 10),
     (''performanceMonitorService'', 10),
     (''durationSequenceService'', 10),
     (''loopConfigurationService'', 10),
     (''positionPreviewService'', 10),
     (''imageService'', 11),
     (''configService'', 11),
     (''playbackCoordinatorService'', 11),
     (''scrollService'', 11),
     (''businessOrchestrationService'', 11),
     (''aboutModalService'', 12),
     (''advancedLoopService'', 12),
     (''imageInfoModalService'', 12),
     (''colorPickerModalService'', 12),
     (''positionSelectorService'', 12),
     (''fileOperationUIService'', 12),
     (''parameterControlUIService'', 12),
     (''playbackControlUIService'', 12),
     (''progressBarService'', 12),
     (''sidebarService'', 12),
     (''displayCoordinatorService'', 12),
     (''PlaybackUIDisablerService'', 12),
     (''bubbleMenuService'', 12),
     (''entryAnimationConfigPage'', 12),
     (''performanceReportPage'', 12)]"

definition SERVICE_LAYERS :: layer_map where
  "SERVICE_LAYERS = map_of SERVICE_LAYERS_items"

text \<open>Lines 83-141, in the order of the literal, which is the order of \<open>.items()\<close>.\<close>

definition DEPENDENCIES :: "(string \<times> string list) list" where
  "DEPENDENCIES = [
     (''scrollStrategyManager'', []),
     (''fileProcessStrategyManager'', []),
     (''entryAnimationStrategyManager'', []),
     (''transitionFragmentPool'', []),
     (''customSelectFactory'', [''stateManager'', ''keyboardService'']),
     (''fileSaveService'', []),
     (''keyboardService'', []),
     (''ppiExtractorService'', []),
     (''canvasRenderService'', []),
     (''viewportCalculatorService'', []),
     (''imageProcessingService'', [''stateManager'']),
     (''loopConfigurationService'', [''stateManager'', ''eventBus'']),
     (''durationSequenceService'', [''stateManager'', ''eventBus'']),
     (''performanceMonitorService'', [''stateManager'', ''eventBus'']),
     (''scrollAnimationService'', [''eventBus'', ''stateManager'', ''scrollStrategyManager'', ''performanceMonitorService'']),
     (''entryAnimationService'', [''eventBus'', ''stateManager'', ''entryAnimationStrategyManager'', ''canvasRenderService'', ''validationService'', ''performanceMonitorService'']),
     (''imageService'', [''eventBus'', ''stateManager'', ''fileProcessStrategyManager'', ''imageProcessingService'']),
     (''playbackCoordinatorService'', [''eventBus'', ''stateManager'', ''entryAnimationService'', ''scrollAnimationService'', ''durationSequenceService'', ''viewportCalculatorService'', ''canvasRenderService'', ''performanceMonitorService'']),
     (''scrollService'', [''eventBus'', ''stateManager'', ''playbackCoordinatorService'']),
     (''configService'', [''eventBus'', ''stateManager'', ''imageService'', ''scrollService'', ''fileSaveService'', ''ppiExtractorService'', ''fileProcessStrategyManager'']),
     (''loadingService'', [''eventBus'']),
     (''dialogService'', [''keyboardService'', ''stateManager'']),
     (''messageService'', [''stateManager'']),
     (''validationService'', [''stateManager'', ''fileProcessStrategyManager'', ''scrollStrategyManager'']),
     (''errorDisplayService'', [''eventBus'', ''dialogService'', ''messageService'']),
     (''stateWatcherService'', [''stateManager'', ''eventBus'']),
     (''businessOrchestrationService'', [''eventBus'', ''stateManager'', ''imageService'', ''scrollService'', ''validationService'']),
     (''tooltipService'', []),
     (''progressBarService'', [''eventBus'', ''stateManager'', ''stateWatcherService'']),
     (''positionPreviewService'', [''stateManager'']),
     (''positionSliderService'', [''stateManager'']),
     (''positionSelectorService'', [''eventBus'', ''validationService'', ''keyboardService'', ''stateManager'', ''positionPreviewService'', ''positionSliderService'', ''stateWatcherService'']),
     (''advancedLoopService'', [''keyboardService'', ''stateManager'', ''loopConfigurationService'', ''durationSequenceService'', ''displayCoordinatorService'', ''stateWatcherService'', ''customSelectFactory'']),
     (''aboutModalService'', [''keyboardService'', ''stateManager'', ''eventBus'']),
     (''imageInfoModalService'', [''ppiExtractorService'', ''eventBus'', ''keyboardService'', ''stateManager'']),
     (''colorPickerFactory'', [''stateManager'', ''keyboardService'', ''eventBus'']),
     (''colorPickerModalService'', [''keyboardService'', ''eventBus'', ''stateManager'', ''validationService'', ''colorPickerFactory'']),
     (''sidebarService'', [''eventBus'', ''keyboardService'', ''stateManager'', ''stateWatcherService'']),
     (''fileOperationUIService'', [''eventBus'', ''stateManager'', ''fileProcessStrategyManager'']),
     (''playbackControlUIService'', [''eventBus'', ''stateManager'', ''scrollService'', ''validationService'', ''keyboardService'']),
     (''parameterControlUIService'', [''eventBus'', ''stateManager'', ''stateWatcherService'', ''scrollStrategyManager'', ''customSelectFactory'', ''colorPickerModalService'']),
     (''PlaybackUIDisablerService'', [''stateManager'', ''stateWatcherService'']),
     (''displayCoordinatorService'', [''eventBus'', ''stateManager'', ''stateWatcherService'', ''canvasRenderService'']),
     (''cardBoundaryEditorFactory'', [''stateManager'', ''keyboardService'', ''viewportCalculatorService'']),
     (''previewManagerFactory'', [''entryAnimationService'', ''viewportCalculatorService'']),
     (''boundaryEditorManagerFactory'', [''cardBoundaryEditorFactory'']),
     (''entryAnimationHelpDialogsFactory'', [''viewportCalculatorService'']),
     (''entryAnimationConfigPage'', [''stateManager'', ''customSelectFactory'', ''eventBus'', ''validationService'', ''previewManagerFactory'', ''boundaryEditorManagerFactory'', ''entryAnimationHelpDialogsFactory'']),
     (''performanceReportPage'', [''stateManager'', ''eventBus'', ''validationService'', ''ppiExtractorService'', ''transitionFragmentPool'']),
     (''bubbleMenuService'', [''eventBus'', ''stateManager'', ''keyboardService''])]"

subsection \<open>check_dependencies\<close>

text \<open>
  The body of the inner loop (lines 155-172) on the local list \<open>violations\<close> and the
  output. The test for the two reserved names sits inside the branch for a dependency
  that is missing from the layer table, as in the source.
\<close>

definition dep_body ::
  "layer_map \<Rightarrow> string \<Rightarrow> int \<Rightarrow> string \<Rightarrow> violation_record list \<times> stdout
    \<Rightarrow> violation_record list \<times> stdout" where
  "dep_body layers svc svc_layer dep st =
     (case st of (violations, out) \<Rightarrow>
        (case layers dep of
           None \<Rightarrow>
             if dep \<in> set [''eventBus'', ''stateManager''] then (violations, out)
             else (violations, out @ [WarnDependency dep])
         | Some dep_layer \<Rightarrow>
             if svc_layer < dep_layer
             then (violations @
                     [\<lparr>service = svc, service_layer = svc_layer, dependency = dep,
                       dependency_layer = dep_layer, violation = (svc_layer, dep_layer)\<rparr>],
                   out)
             else (violations, out)))"

text \<open>The inner loop, \<open>for dep in deps\<close> (line 154).\<close>

fun deps_loop ::
  "layer_map \<Rightarrow> string \<Rightarrow> int \<Rightarrow> string list \<Rightarrow> violation_record list \<times> stdout
    \<Rightarrow> violation_record list \<times> stdout" where
  "deps_loop layers svc svc_layer [] st = st"
| "deps_loop layers svc svc_layer (dep # deps) st =
     deps_loop layers svc svc_layer deps (dep_body layers svc svc_layer dep st)"

text \<open>The outer loop, \<open>for service, deps in DEPENDENCIES.items()\<close> (lines 147-172).\<close>

fun services_loop ::
  "layer_map \<Rightarrow> dependency_map \<Rightarrow> violation_record list \<times> stdout
    \<Rightarrow> violation_record list \<times> stdout" where
  "services_loop layers [] st = st"
| "services_loop layers ((svc, deps) # rest) st =
     (case layers svc of
        None \<Rightarrow> services_loop layers rest (fst st, snd st @ [WarnService svc])
      | Some svc_layer \<Rightarrow> services_loop layers rest (deps_loop layers svc svc_layer deps st))"

text \<open>
  \<open>check_dependencies\<close> over given tables: the value returned (line 174) is the list
  \<open>violations\<close>, which starts empty in every call (line 145); the second component is
  standard output after the call.
\<close>

definition check_dependencies_on ::
  "layer_map \<Rightarrow> dependency_map \<Rightarrow> stdout \<Rightarrow> violation_record list \<times> stdout" where
  "check_dependencies_on layers dependencies out = services_loop layers dependencies ([], out)"

definition check_dependencies :: "stdout \<Rightarrow> violation_record list \<times> stdout" where
  "check_dependencies out = check_dependencies_on SERVICE_LAYERS DEPENDENCIES out"

subsection \<open>main and the entry point\<close>

text \<open>The loop \<open>for i, v in enumerate(violations, 1)\<close> of lines 193-198.\<close>

fun print_violations :: "nat \<Rightarrow> violation_record list \<Rightarrow> stdout \<Rightarrow> stdout" where
  "print_violations i [] out = out"
| "print_violations i (v # vs) out =
     print_violations (Suc i) vs
       (out @ [ViolationService i (service v) (service_layer v), ViolationArrow,
               ViolationDependency (dependency v) (dependency_layer v),
               ViolationTag (violation v), Blank])"

text \<open>\<open>main\<close> (lines 176-201) returns \<open>len(violations)\<close>.\<close>

definition main_on :: "layer_map \<Rightarrow> dependency_map \<Rightarrow> stdout \<Rightarrow> int \<times> stdout" where
  "main_on layers dependencies out =
     (case check_dependencies_on layers dependencies (out @ [Rule, Title, Rule, Blank]) of
        (violations, out1) \<Rightarrow>
          (let out2 =
                 (if violations = []
                  then out1 @ [OkNoViolation, Blank, OkDirection, OkSameOrLower, OkNoUpward]
                  else print_violations 1 violations
                         (out1 @ [ErrorCount (length violations), Blank]))
           in (int (length violations), out2 @ [Rule])))"

text \<open>
  The entry point (lines 203-205): the exit status is \<open>0 if violations_count == 0 else 1\<close>.
  The first component is the exit status, the second what the process has printed.
\<close>

definition script_on :: "layer_map \<Rightarrow> dependency_map \<Rightarrow> stdout \<Rightarrow> int \<times> stdout" where
  "script_on layers dependencies out =
     (case main_on layers dependencies out of
        (violations_count, out') \<Rightarrow> (if violations_count = 0 then 0 else 1, out'))"

definition script :: "int \<times> stdout" where
  "script = script_on SERVICE_LAYERS DEPENDENCIES []"

subsection \<open>What one run returns and prints\<close>

text \<open>The list a run returns, and the lines a run adds to an empty output.\<close>

definition violations_of :: "layer_map \<Rightarrow> dependency_map \<Rightarrow> violation_record list" where
  "violations_of layers dependencies = fst (check_dependencies_on layers dependencies [])"

definition warnings_of :: "layer_map \<Rightarrow> dependency_map \<Rightarrow> printed list" where
  "warnings_of layers dependencies = snd (check_dependencies_on layers dependencies [])"

subsection \<open>The specification's reading of the walk\<close>

text \<open>
  What a single edge adds to the violations and to the output, and what a single entry of
  the dependency table adds; the loops are compared with these below.
\<close>

definition edge_violations :: "layer_map \<Rightarrow> string \<Rightarrow> int \<Rightarrow> string \<Rightarrow> violation_record list" where
  "edge_violations layers s ls d =
     (case layers d of
        None \<Rightarrow> []
      | Some ld \<Rightarrow>
          if ls < ld
          then [\<lparr>service = s, service_layer = ls, dependency = d, dependency_layer = ld,
                 violation = (ls, ld)\<rparr>]
          else [])"

definition edge_warnings :: "layer_map \<Rightarrow> string \<Rightarrow> printed list" where
  "edge_warnings layers d =
     (case layers d of
        None \<Rightarrow> if d = ''eventBus'' \<or> d = ''stateManager'' then [] else [WarnDependency d]
      | Some ld \<Rightarrow> [])"

definition source_violations :: "layer_map \<Rightarrow> string \<times> string list \<Rightarrow> violation_record list" where
  "source_violations layers e =
     (case layers (fst e) of
        None \<Rightarrow> []
      | Some ls \<Rightarrow> concat (map (edge_violations layers (fst e) ls) (snd e)))"

definition source_warnings :: "layer_map \<Rightarrow> string \<times> string list \<Rightarrow> printed list" where
  "source_warnings layers e =
     (case layers (fst e) of
        None \<Rightarrow> [WarnService (fst e)]
      | Some ls \<Rightarrow> concat (map (edge_warnings layers) (snd e)))"

text \<open>The declared edges in the order the two loops meet them.\<close>

definition declared_edges :: "dependency_map \<Rightarrow> (string \<times> string) list" where
  "declared_edges dependencies = concat (map (\<lambda>e. map (Pair (fst e)) (snd e)) dependencies)"

text \<open>The record of an upward edge between two registered services, and nothing otherwise.\<close>

definition upward_edge :: "layer_map \<Rightarrow> string \<times> string \<Rightarrow> violation_record option" where
  "upward_edge layers e =
     (case layers (fst e) of
        None \<Rightarrow> None
      | Some ls \<Rightarrow>
          (case layers (snd e) of
             None \<Rightarrow> None
           | Some ld \<Rightarrow>
               if ls < ld
               then Some \<lparr>service = fst e, service_layer = ls, dependency = snd e,
                          dependency_layer = ld, violation = (ls, ld)\<rparr>
               else None))"

text \<open>An edge that adds neither a violation nor a warning.\<close>

definition quiet_edge :: "layer_map \<Rightarrow> string \<Rightarrow> string \<Rightarrow> bool" where
  "quiet_edge layers s d =
     (case layers s of
        None \<Rightarrow> True
      | Some ls \<Rightarrow>
          (case layers d of
             None \<Rightarrow> d = ''eventBus'' \<or> d = ''stateManager''
           | Some ld \<Rightarrow> \<not> ls < ld))"

section \<open>The loops compute the edge-by-edge reading\<close>

lemma dep_body_eq:
  "dep_body layers s ls d (vs, out) =
     (vs @ edge_violations layers s ls d, out @ edge_warnings layers d)"
  by (simp add: dep_body_def edge_violations_def edge_warnings_def split: option.split)

lemma deps_loop_eq:
  "deps_loop layers s ls ds (vs, out) =
     (vs @ concat (map (edge_violations layers s ls) ds),
      out @ concat (map (edge_warnings layers) ds))"
  by (induction ds arbitrary: vs out) (simp_all add: dep_body_eq)

lemma services_loop_eq:
  "services_loop layers deps (vs, out) =
     (vs @ concat (map (source_violations layers) deps),
      out @ concat (map (source_warnings layers) deps))"
proof (induction deps arbitrary: vs out)
  case Nil
  show ?case by simp
next
  case (Cons e rest)
  obtain s ds where e: "e = (s, ds)" by (cases e)
  show ?case
  proof (cases "layers s")
    case None
    then show ?thesis
      by (simp add: e Cons.IH source_violations_def source_warnings_def)
  next
    case (Some ls)
    then show ?thesis
      by (simp add: e deps_loop_eq Cons.IH source_violations_def source_warnings_def)
  qed
qed

lemma check_dependencies_on_eq:
  "check_dependencies_on layers deps out =
     (concat (map (source_violations layers) deps),
      out @ concat (map (source_warnings layers) deps))"
  by (simp add: check_dependencies_on_def services_loop_eq)

lemma violations_of_eq:
  "violations_of layers deps = concat (map (source_violations layers) deps)"
  by (simp add: violations_of_def check_dependencies_on_eq)

lemma warnings_of_eq:
  "warnings_of layers deps = concat (map (source_warnings layers) deps)"
  by (simp add: warnings_of_def check_dependencies_on_eq)

lemma violations_of_append:
  "violations_of layers (xs @ ys) = violations_of layers xs @ violations_of layers ys"
  by (simp add: violations_of_eq)

lemma warnings_of_append:
  "warnings_of layers (xs @ ys) = warnings_of layers xs @ warnings_of layers ys"
  by (simp add: warnings_of_eq)

lemma main_on_count:
  "fst (main_on layers deps out) = int (length (violations_of layers deps))"
  by (simp add: main_on_def check_dependencies_on_eq violations_of_eq Let_def)

lemma script_on_status:
  "fst (script_on layers deps out) = (if violations_of layers deps = [] then 0 else 1)"
proof -
  obtain c out' where m: "main_on layers deps out = (c, out')"
    by (cases "main_on layers deps out")
  from main_on_count [of layers deps out] m
  have "c = int (length (violations_of layers deps))" by simp
  then show ?thesis by (simp add: script_on_def m)
qed

subsection \<open>Which records and which warnings a run produces\<close>

lemma in_violations_of_iff:
  "v \<in> set (violations_of layers deps) \<longleftrightarrow>
     (\<exists>s ds d ls ld. (s, ds) \<in> set deps \<and> d \<in> set ds \<and> layers s = Some ls \<and>
        layers d = Some ld \<and> ls < ld \<and>
        v = \<lparr>service = s, service_layer = ls, dependency = d, dependency_layer = ld,
              violation = (ls, ld)\<rparr>)"
  (is "?l \<longleftrightarrow> ?r")
proof
  assume ?l
  then obtain e where e: "e \<in> set deps" and v: "v \<in> set (source_violations layers e)"
    by (auto simp: violations_of_eq)
  obtain s ds where sd: "e = (s, ds)" by (cases e)
  from v sd obtain ls where ls: "layers s = Some ls"
    and v': "v \<in> set (concat (map (edge_violations layers s ls) ds))"
    by (cases "layers s") (auto simp: source_violations_def)
  from v' obtain d where d: "d \<in> set ds" and v'': "v \<in> set (edge_violations layers s ls d)"
    by auto
  from v'' obtain ld where "layers d = Some ld" "ls < ld"
    "v = \<lparr>service = s, service_layer = ls, dependency = d, dependency_layer = ld,
              violation = (ls, ld)\<rparr>"
    by (cases "layers d") (auto simp: edge_violations_def split: if_splits)
  with e sd ls d show ?r by blast
next
  assume ?r
  then obtain s ds d ls ld where h: "(s, ds) \<in> set deps" "d \<in> set ds" "layers s = Some ls"
        "layers d = Some ld" "ls < ld"
        "v = \<lparr>service = s, service_layer = ls, dependency = d, dependency_layer = ld,
              violation = (ls, ld)\<rparr>"
    by blast
  then have "v \<in> set (edge_violations layers s ls d)"
    by (simp add: edge_violations_def)
  with h(2,3) have "v \<in> set (source_violations layers (s, ds))"
    by (auto simp: source_violations_def)
  with h(1) show ?l
    by (auto simp: violations_of_eq)
qed

lemma source_violations_unknown:
  "layers s = None \<Longrightarrow> source_violations layers (s, ds) = []"
  by (simp add: source_violations_def)

lemma source_warnings_unknown:
  "layers s = None \<Longrightarrow> source_warnings layers (s, ds) = [WarnService s]"
  by (simp add: source_warnings_def)

subsection \<open>Filtering the declared edges\<close>

lemma map_filter_append:
  "List.map_filter f (xs @ ys) = List.map_filter f xs @ List.map_filter f ys"
  by (simp add: List.map_filter_def)

lemma map_filter_concat:
  "List.map_filter f (concat xss) = concat (map (List.map_filter f) xss)"
  by (induction xss) (simp_all add: map_filter_append List.map_filter_simps)

lemma map_filter_edges_known:
  "layers s = Some ls \<Longrightarrow>
     List.map_filter (upward_edge layers) (map (Pair s) ds) =
       concat (map (edge_violations layers s ls) ds)"
  by (induction ds)
    (simp_all add: List.map_filter_simps upward_edge_def edge_violations_def split: option.split)

lemma map_filter_edges_unknown:
  "layers s = None \<Longrightarrow> List.map_filter (upward_edge layers) (map (Pair s) ds) = []"
  by (induction ds) (simp_all add: List.map_filter_simps upward_edge_def)

lemma map_filter_source:
  "List.map_filter (upward_edge layers) (map (Pair (fst e)) (snd e)) = source_violations layers e"
  by (cases "layers (fst e)")
    (simp_all add: source_violations_def map_filter_edges_known map_filter_edges_unknown)

subsection \<open>One edge adds at most one line\<close>

lemma edge_length:
  "layers s = Some ls \<Longrightarrow>
     length (edge_violations layers s ls d) + length (edge_warnings layers d) =
       (if quiet_edge layers s d then 0 else 1)"
  by (simp add: edge_violations_def edge_warnings_def quiet_edge_def split: option.split)

lemma quiet_edge_unknown: "layers s = None \<Longrightarrow> quiet_edge layers s d"
  by (simp add: quiet_edge_def)

subsection \<open>The tables of the script, evaluated\<close>

lemma tables_keys_distinct:
  "distinct (map fst SERVICE_LAYERS_items) \<and> distinct (map fst DEPENDENCIES)"
  by code_simp

lemma tables_violations: "violations_of SERVICE_LAYERS DEPENDENCIES = []"
  by code_simp

lemma tables_warnings: "warnings_of SERVICE_LAYERS DEPENDENCIES = []"
  by code_simp

lemma tables_compliant:
  "list_all (\<lambda>e. list_all (\<lambda>d. d = ''eventBus'' \<or> d = ''stateManager'' \<or>
       (case SERVICE_LAYERS (fst e) of None \<Rightarrow> False
        | Some ls \<Rightarrow> (case SERVICE_LAYERS d of None \<Rightarrow> False | Some ld \<Rightarrow> ld \<le> ls))) (snd e))
     DEPENDENCIES"
  by code_simp

lemma tables_script:
  "script = (0, [Rule, Title, Rule, Blank, OkNoViolation, Blank, OkDirection, OkSameOrLower,
              OkNoUpward, Rule])"
  by code_simp

section \<open>The claims\<close>

text \<open>
  C1. Let \<open>s\<close> be a key of the dependency table with \<open>d\<close> in its list, both in the
  layer table, \<open>d\<close> not one of the two reserved names. The returned list holds a record
  for the edge \<open>(s, d)\<close> exactly when \<open>layer(s) < layer(d)\<close>; an edge in the same layer
  or downward gives none; every record for the edge carries \<open>s\<close>, \<open>layer(s)\<close>, \<open>d\<close>
  and \<open>layer(d)\<close>.
\<close>

theorem violation_iff_upward:
  assumes "(s, ds) \<in> set deps" and "d \<in> set ds"
    and "layers s = Some ls" and "layers d = Some ld"
    and "d \<noteq> ''eventBus''" and "d \<noteq> ''stateManager''"
  shows "((\<exists>v \<in> set (violations_of layers deps). service v = s \<and> dependency v = d) \<longleftrightarrow> ls < ld)
    \<and> (\<lparr>service = s, service_layer = ls, dependency = d, dependency_layer = ld,
          violation = (ls, ld)\<rparr> \<in> set (violations_of layers deps) \<longleftrightarrow> ls < ld)
    \<and> (\<forall>v \<in> set (violations_of layers deps). service v = s \<and> dependency v = d \<longrightarrow>
          service_layer v = ls \<and> dependency_layer v = ld \<and> violation v = (ls, ld))"
proof -
  let ?r = "\<lparr>service = s, service_layer = ls, dependency = d, dependency_layer = ld,
          violation = (ls, ld)\<rparr>"
  have every: "v = ?r \<and> ls < ld"
    if "v \<in> set (violations_of layers deps)" and "service v = s" and "dependency v = d" for v
  proof -
    from that(1) obtain s' ds' d' ls' ld' where h: "layers s' = Some ls'" "layers d' = Some ld'"
      "ls' < ld'"
      "v = \<lparr>service = s', service_layer = ls', dependency = d', dependency_layer = ld',
              violation = (ls', ld')\<rparr>"
      unfolding in_violations_of_iff by blast
    from h(4) that(2,3) have "s' = s" "d' = d" by simp_all
    with h assms(3,4) show ?thesis by simp
  qed
  have present: "?r \<in> set (violations_of layers deps)" if "ls < ld"
    unfolding in_violations_of_iff using assms(1-4) that by blast
  have a: "(\<exists>v \<in> set (violations_of layers deps). service v = s \<and> dependency v = d) \<longleftrightarrow> ls < ld"
  proof
    assume "\<exists>v \<in> set (violations_of layers deps). service v = s \<and> dependency v = d"
    then show "ls < ld" using every by blast
  next
    assume "ls < ld"
    from present [OF this] show "\<exists>v \<in> set (violations_of layers deps). service v = s \<and> dependency v = d"
      by (rule bexI [rotated]) simp
  qed
  have b: "?r \<in> set (violations_of layers deps) \<longleftrightarrow> ls < ld"
    using every [of ?r] present by auto
  have c: "\<forall>v \<in> set (violations_of layers deps). service v = s \<and> dependency v = d \<longrightarrow>
          service_layer v = ls \<and> dependency_layer v = ld \<and> violation v = (ls, ld)"
  proof (intro ballI impI)
    fix v assume "v \<in> set (violations_of layers deps)" "service v = s \<and> dependency v = d"
    then have "v = ?r" using every by blast
    then show "service_layer v = ls \<and> dependency_layer v = ld \<and> violation v = (ls, ld)"
      by simp
  qed
  from a b c show ?thesis by blast
qed

theorem violation_iff_upward_witness:
  "(''A'', [''B'']) \<in> set [(''A'', [''B'']), (''B'', [''A''])] \<and> ''B'' \<in> set [''B'']
   \<and> map_of [(''A'', 1::int), (''B'', 2)] ''A'' = Some 1
   \<and> map_of [(''A'', 1::int), (''B'', 2)] ''B'' = Some 2
   \<and> ''B'' \<noteq> ''eventBus'' \<and> ''B'' \<noteq> ''stateManager''
   \<and> ((1::int) < 2)
   \<and> \<lparr>service = ''A'', service_layer = 1, dependency = ''B'', dependency_layer = 2,
        violation = (1, 2)\<rparr>
       \<in> set (violations_of (map_of [(''A'', 1), (''B'', 2)]) [(''A'', [''B'']), (''B'', [''A''])])"
  using violation_iff_upward [of "''A''" "[''B'']" "[(''A'', [''B'']), (''B'', [''A''])]" "''B''"
      "map_of [(''A'', 1), (''B'', 2)]" 1 2]
  by simp

text \<open>
  C2. The claim is that an edge whose target is \<open>eventBus\<close> or \<open>stateManager\<close> is never
  reported, whether or not the target is in the layer table and whatever the two layers
  are. The comment at line 156 calls the two names always allowed, but the test for them
  (line 157) is reached only when the lookup in the layer table has failed (line 155). So
  the run with \<open>eventBus\<close> missing from the table reports nothing for the edge from
  \<open>A\<close>, and the run with \<open>eventBus\<close> registered in layer 2 and \<open>A\<close> in layer 1
  returns that edge as a violation.
\<close>

theorem foundation_in_table_flagged:
  "check_dependencies_on (map_of [(''A'', 1)]) [(''A'', [''eventBus''])] [] = ([], [])
   \<and> check_dependencies_on (map_of [(''A'', 1), (''eventBus'', 2)]) [(''A'', [''eventBus''])] [] =
     ([\<lparr>service = ''A'', service_layer = 1, dependency = ''eventBus'', dependency_layer = 2,
        violation = (1, 2)\<rparr>], [])"
  by (simp add: check_dependencies_on_def dep_body_def)

text \<open>
  C3. The exit status of the process is 0 exactly when the list returned by
  \<open>check_dependencies\<close> is empty, and 1 when the list holds at least one record. A run
  that prints warnings and finds no violation exits with 0.
\<close>

theorem exit_status_iff_no_violation:
  "(fst (script_on layers deps out) = 0 \<longleftrightarrow> violations_of layers deps = [])
   \<and> (violations_of layers deps \<noteq> [] \<longrightarrow> fst (script_on layers deps out) = 1)
   \<and> (violations_of layers deps = [] \<and> warnings_of layers deps \<noteq> [] \<longrightarrow>
        fst (script_on layers deps out) = 0)
   \<and> fst (check_dependencies_on layers deps out') = violations_of layers deps"
  by (simp add: script_on_status check_dependencies_on_eq violations_of_eq)

theorem exit_status_iff_no_violation_witness:
  "violations_of (map_of [(''A'', 1)]) [(''A'', [''Z'']), (''Q'', [])] = []
   \<and> warnings_of (map_of [(''A'', 1)]) [(''A'', [''Z'']), (''Q'', [])] =
        [WarnDependency ''Z'', WarnService ''Q'']
   \<and> fst (script_on (map_of [(''A'', 1)]) [(''A'', [''Z'']), (''Q'', [])] []) = 0
   \<and> violations_of (map_of [(''A'', 1), (''B'', 2)]) [(''A'', [''B''])] \<noteq> []
   \<and> fst (script_on (map_of [(''A'', 1), (''B'', 2)]) [(''A'', [''B''])] []) = 1"
proof -
  have v: "violations_of (map_of [(''A'', 1)]) [(''A'', [''Z'']), (''Q'', [])] = []"
    by (simp add: violations_of_eq source_violations_def edge_violations_def)
  have w: "warnings_of (map_of [(''A'', 1)]) [(''A'', [''Z'']), (''Q'', [])] =
        [WarnDependency ''Z'', WarnService ''Q'']"
    by (simp add: warnings_of_eq source_warnings_def edge_warnings_def)
  have n: "violations_of (map_of [(''A'', 1), (''B'', 2)]) [(''A'', [''B''])] \<noteq> []"
    by (simp add: violations_of_eq source_violations_def edge_violations_def)
  from exit_status_iff_no_violation [of "map_of [(''A'', 1)]" "[(''A'', [''Z'']), (''Q'', [])]" "[]" "[]"]
    exit_status_iff_no_violation [of "map_of [(''A'', 1), (''B'', 2)]" "[(''A'', [''B''])]" "[]" "[]"]
    v w n
  show ?thesis by simp
qed

text \<open>
  C4. Let \<open>s\<close> be in the layer table and \<open>d\<close> be missing from it, \<open>d\<close> not a reserved
  name. The loop body on the edge \<open>(s, d)\<close> prints one warning naming \<open>d\<close> and leaves the
  list of violations as it is. In a whole run, the returned violations are those of the
  same tables without this occurrence of \<open>d\<close>, so every other edge is still judged, and
  the printed warnings are those before the edge, the one warning for it, and those after.
\<close>

theorem unknown_dependency_warns_once:
  assumes "layers s = Some ls" and "layers d = None"
    and "d \<noteq> ''eventBus''" and "d \<noteq> ''stateManager''"
  shows "dep_body layers s ls d (vs, out) = (vs, out @ [WarnDependency d])
    \<and> violations_of layers (pre @ (s, ds1 @ d # ds2) # post) =
        violations_of layers (pre @ (s, ds1 @ ds2) # post)
    \<and> warnings_of layers (pre @ (s, ds1 @ d # ds2) # post) =
        warnings_of layers (pre @ [(s, ds1)]) @ [WarnDependency d]
          @ warnings_of layers ((s, ds2) # post)"
proof -
  have ev: "edge_violations layers s ls d = []"
    using assms(2) by (simp add: edge_violations_def)
  have ew: "edge_warnings layers d = [WarnDependency d]"
    using assms(2-4) by (simp add: edge_warnings_def)
  have a: "dep_body layers s ls d (vs, out) = (vs, out @ [WarnDependency d])"
    by (simp add: dep_body_eq ev ew)
  have b: "violations_of layers (pre @ (s, ds1 @ d # ds2) # post) =
        violations_of layers (pre @ (s, ds1 @ ds2) # post)"
    using assms(1) by (simp add: violations_of_eq source_violations_def ev)
  have c: "warnings_of layers (pre @ (s, ds1 @ d # ds2) # post) =
        warnings_of layers (pre @ [(s, ds1)]) @ [WarnDependency d]
          @ warnings_of layers ((s, ds2) # post)"
    using assms(1) by (simp add: warnings_of_eq source_warnings_def ew)
  from a b c show ?thesis by simp
qed

theorem unknown_dependency_warns_once_witness:
  "map_of [(''A'', 1::int), (''B'', 2)] ''A'' = Some 1
   \<and> map_of [(''A'', 1::int), (''B'', 2)] ''Z'' = None
   \<and> ''Z'' \<noteq> ''eventBus'' \<and> ''Z'' \<noteq> ''stateManager''
   \<and> violations_of (map_of [(''A'', 1), (''B'', 2)]) [(''A'', [''Z'', ''B''])] =
       [\<lparr>service = ''A'', service_layer = 1, dependency = ''B'', dependency_layer = 2,
         violation = (1, 2)\<rparr>]
   \<and> warnings_of (map_of [(''A'', 1), (''B'', 2)]) [(''A'', [''Z'', ''B''])] = [WarnDependency ''Z'']"
  using unknown_dependency_warns_once [of "map_of [(''A'', 1), (''B'', 2)]" "''A''" 1 "''Z''"
      "[]" "[]" "[]" "[]" "[''B'']" "[]"]
  by (simp add: violations_of_eq warnings_of_eq source_violations_def source_warnings_def
      edge_violations_def edge_warnings_def)

text \<open>
  C5. Let \<open>s\<close> be a key of the dependency table that is missing from the layer table. The
  outer loop prints one warning naming \<open>s\<close>, looks at none of its dependencies, and
  goes on with the next key: the returned violations are those of the table without the
  entry of \<open>s\<close>, and the warnings are those of the entries before, the one warning for
  \<open>s\<close>, and those of the entries after.
\<close>

theorem unknown_source_skipped:
  assumes "layers s = None"
  shows "services_loop layers ((s, ds) # rest) (vs, out) =
           services_loop layers rest (vs, out @ [WarnService s])
    \<and> violations_of layers (pre @ (s, ds) # post) = violations_of layers (pre @ post)
    \<and> warnings_of layers (pre @ (s, ds) # post) =
        warnings_of layers pre @ [WarnService s] @ warnings_of layers post"
  using assms
  by (simp add: violations_of_eq warnings_of_eq source_violations_unknown source_warnings_unknown)

theorem unknown_source_skipped_witness:
  "map_of [(''A'', 1::int), (''B'', 2)] ''Q'' = None
   \<and> violations_of (map_of [(''A'', 1), (''B'', 2)]) [(''Q'', [''B'', ''Z'']), (''A'', [''B''])] =
       [\<lparr>service = ''A'', service_layer = 1, dependency = ''B'', dependency_layer = 2,
         violation = (1, 2)\<rparr>]
   \<and> warnings_of (map_of [(''A'', 1), (''B'', 2)]) [(''Q'', [''B'', ''Z'']), (''A'', [''B''])] =
       [WarnService ''Q'']"
  using unknown_source_skipped [of "map_of [(''A'', 1), (''B'', 2)]" "''Q''" "[''B'', ''Z'']"
      "[]" "[]" "[]" "[]" "[(''A'', [''B''])]"]
  by (simp add: violations_of_eq warnings_of_eq source_violations_def source_warnings_def
      edge_violations_def edge_warnings_def)

text \<open>
  C6, as the code has it. \<open>check_dependencies\<close> returns one value, the list of all
  violations. The warnings are not part of the returned value: each is printed to standard
  output when its edge or key is met, and a run started with output \<open>out\<close> leaves
  \<open>out\<close> followed by all its warnings. The caller \<open>main\<close> returns the length of the
  list, and the entry point derives the exit status from that number.
\<close>

theorem violations_returned_warnings_printed:
  "check_dependencies_on layers deps out = (violations_of layers deps, out @ warnings_of layers deps)
   \<and> violations_of layers deps = concat (map (source_violations layers) deps)
   \<and> warnings_of layers deps = concat (map (source_warnings layers) deps)
   \<and> fst (main_on layers deps out) = int (length (violations_of layers deps))
   \<and> fst (script_on layers deps out) = (if fst (main_on layers deps out) = 0 then 0 else 1)"
  by (simp add: check_dependencies_on_eq violations_of_eq warnings_of_eq main_on_count
      script_on_status)

theorem violations_returned_warnings_printed_witness:
  "check_dependencies_on (map_of [(''A'', 1), (''B'', 2)]) [(''A'', [''Z'', ''B'']), (''Q'', [])] [Blank] =
     ([\<lparr>service = ''A'', service_layer = 1, dependency = ''B'', dependency_layer = 2,
        violation = (1, 2)\<rparr>],
      [Blank, WarnDependency ''Z'', WarnService ''Q''])
   \<and> fst (main_on (map_of [(''A'', 1), (''B'', 2)]) [(''A'', [''Z'', ''B'']), (''Q'', [])] [Blank]) = 1
   \<and> fst (script_on (map_of [(''A'', 1), (''B'', 2)]) [(''A'', [''Z'', ''B'']), (''Q'', [])] [Blank]) = 1"
  using violations_returned_warnings_printed [of "map_of [(''A'', 1), (''B'', 2)]"
      "[(''A'', [''Z'', ''B'']), (''Q'', [])]" "[Blank]"]
  by (simp add: source_violations_def source_warnings_def edge_violations_def edge_warnings_def)

text \<open>
  A run that warns about an unregistered dependency returns the same value, the empty
  list, as a run that has nothing to warn about; the warning is in the output only.
\<close>

theorem warnings_not_returned_counterexample:
  "fst (check_dependencies_on (map_of [(''A'', 1)]) [(''A'', [''Z''])] []) = []
   \<and> fst (check_dependencies_on (map_of [(''A'', 1)]) [(''A'', [])] []) = []
   \<and> snd (check_dependencies_on (map_of [(''A'', 1)]) [(''A'', [''Z''])] []) = [WarnDependency ''Z'']
   \<and> snd (check_dependencies_on (map_of [(''A'', 1)]) [(''A'', [])] []) = []"
  by (simp add: check_dependencies_on_eq source_violations_def source_warnings_def
      edge_violations_def edge_warnings_def)

text \<open>
  C7. The returned list is the list of declared edges, in the order of the dependency
  table and, for one key, in the order of its list, from which the edges that are not
  upward edges between two registered services are dropped and in which every remaining
  edge is replaced by its record. Nothing is merged, reordered or cut off.
\<close>

theorem violations_in_discovery_order:
  "violations_of layers deps = List.map_filter (upward_edge layers) (declared_edges deps)"
  by (simp add: violations_of_eq declared_edges_def map_filter_concat map_filter_source
      comp_def)

theorem violations_in_discovery_order_witness:
  "violations_of (map_of [(''A'', 1), (''B'', 2), (''C'', 3)])
     [(''B'', [''C'', ''A'', ''C'']), (''A'', [''C'', ''B''])] =
   [\<lparr>service = ''B'', service_layer = 2, dependency = ''C'', dependency_layer = 3, violation = (2, 3)\<rparr>,
    \<lparr>service = ''B'', service_layer = 2, dependency = ''C'', dependency_layer = 3, violation = (2, 3)\<rparr>,
    \<lparr>service = ''A'', service_layer = 1, dependency = ''C'', dependency_layer = 3, violation = (1, 3)\<rparr>,
    \<lparr>service = ''A'', service_layer = 1, dependency = ''B'', dependency_layer = 2, violation = (1, 2)\<rparr>]"
  using violations_in_discovery_order [of "map_of [(''A'', 1), (''B'', 2), (''C'', 3)]"
     "[(''B'', [''C'', ''A'', ''C'']), (''A'', [''C'', ''B''])]"]
  by (simp add: declared_edges_def List.map_filter_simps upward_edge_def)

text \<open>
  C8, as the code has it. A dependency that a key lists twice is inspected twice. The run
  on the table where \<open>s\<close> lists \<open>d\<close> twice equals the run on the table where the second
  occurrence is removed exactly when the edge \<open>(s, d)\<close> is quiet, that is when \<open>s\<close> is
  missing from the layer table, or \<open>d\<close> is a reserved name missing from it, or both are
  registered and \<open>layer(s) \<ge> layer(d)\<close>. Otherwise the second occurrence adds one more
  line, and that line is a copy of what the first occurrence added. For an upward edge
  between registered services the returned list holds the record of \<open>(s, d)\<close> at the
  place of each of the two occurrences, and once when \<open>d\<close> is listed once, with the same
  warnings in both runs. For an unregistered \<open>d\<close> that is not a reserved name the output
  holds the warning naming \<open>d\<close> at the place of each occurrence, with the same
  violations in both runs.
\<close>

theorem duplicate_edge_repeats:
  "(check_dependencies_on layers (pre @ (s, ds1 @ d # ds2 @ d # ds3) # post) out =
      check_dependencies_on layers (pre @ (s, ds1 @ d # ds2 @ ds3) # post) out
    \<longleftrightarrow> quiet_edge layers s d)
   \<and> length (violations_of layers (pre @ (s, ds1 @ d # ds2 @ d # ds3) # post))
       + length (warnings_of layers (pre @ (s, ds1 @ d # ds2 @ d # ds3) # post)) =
     length (violations_of layers (pre @ (s, ds1 @ d # ds2 @ ds3) # post))
       + length (warnings_of layers (pre @ (s, ds1 @ d # ds2 @ ds3) # post))
       + (if quiet_edge layers s d then 0 else 1)
   \<and> (layers s = Some ls \<longrightarrow> layers d = Some ld \<longrightarrow> ls < ld \<longrightarrow>
        violations_of layers (pre @ (s, ds1 @ d # ds2 @ d # ds3) # post) =
          violations_of layers (pre @ [(s, ds1)])
          @ [\<lparr>service = s, service_layer = ls, dependency = d, dependency_layer = ld,
               violation = (ls, ld)\<rparr>]
          @ violations_of layers [(s, ds2)]
          @ [\<lparr>service = s, service_layer = ls, dependency = d, dependency_layer = ld,
               violation = (ls, ld)\<rparr>]
          @ violations_of layers ((s, ds3) # post)
        \<and> violations_of layers (pre @ (s, ds1 @ d # ds2 @ ds3) # post) =
          violations_of layers (pre @ [(s, ds1)])
          @ [\<lparr>service = s, service_layer = ls, dependency = d, dependency_layer = ld,
               violation = (ls, ld)\<rparr>]
          @ violations_of layers [(s, ds2)]
          @ violations_of layers ((s, ds3) # post)
        \<and> warnings_of layers (pre @ (s, ds1 @ d # ds2 @ d # ds3) # post) =
          warnings_of layers (pre @ (s, ds1 @ d # ds2 @ ds3) # post))
   \<and> (layers s = Some ls \<longrightarrow> layers d = None \<longrightarrow> d \<noteq> ''eventBus'' \<longrightarrow> d \<noteq> ''stateManager'' \<longrightarrow>
        warnings_of layers (pre @ (s, ds1 @ d # ds2 @ d # ds3) # post) =
          warnings_of layers (pre @ [(s, ds1)]) @ [WarnDependency d]
          @ warnings_of layers [(s, ds2)] @ [WarnDependency d]
          @ warnings_of layers ((s, ds3) # post)
        \<and> warnings_of layers (pre @ (s, ds1 @ d # ds2 @ ds3) # post) =
          warnings_of layers (pre @ [(s, ds1)]) @ [WarnDependency d]
          @ warnings_of layers [(s, ds2)]
          @ warnings_of layers ((s, ds3) # post)
        \<and> violations_of layers (pre @ (s, ds1 @ d # ds2 @ d # ds3) # post) =
          violations_of layers (pre @ (s, ds1 @ d # ds2 @ ds3) # post))"
proof -
  let ?twice = "pre @ (s, ds1 @ d # ds2 @ d # ds3) # post"
  let ?once = "pre @ (s, ds1 @ d # ds2 @ ds3) # post"
  have run: "check_dependencies_on layers deps out =
               (violations_of layers deps, out @ warnings_of layers deps)" for deps
    by (simp add: check_dependencies_on_eq violations_of_eq warnings_of_eq)
  have count: "length (violations_of layers ?twice) + length (warnings_of layers ?twice) =
     length (violations_of layers ?once) + length (warnings_of layers ?once)
       + (if quiet_edge layers s d then 0 else 1)"
  proof (cases "layers s")
    case None
    then show ?thesis
      by (simp add: violations_of_eq warnings_of_eq source_violations_unknown
          source_warnings_unknown quiet_edge_unknown)
  next
    case (Some k)
    have "length (violations_of layers ?twice) =
            length (violations_of layers ?once) + length (edge_violations layers s k d)"
      using Some by (simp add: violations_of_eq source_violations_def)
    moreover have "length (warnings_of layers ?twice) =
            length (warnings_of layers ?once) + length (edge_warnings layers d)"
      using Some by (simp add: warnings_of_eq source_warnings_def)
    ultimately show ?thesis
      using Some edge_length [of layers s k d] by simp
  qed
  have same: "check_dependencies_on layers ?twice out = check_dependencies_on layers ?once out"
    if q: "quiet_edge layers s d"
  proof (cases "layers s")
    case None
    then show ?thesis
      by (simp add: check_dependencies_on_eq source_violations_unknown source_warnings_unknown)
  next
    case (Some k)
    from q Some edge_length [of layers s k d]
    have "edge_violations layers s k d = []" "edge_warnings layers d = []" by simp_all
    with Some show ?thesis
      by (simp add: check_dependencies_on_eq source_violations_def source_warnings_def)
  qed
  have differ: "quiet_edge layers s d"
    if eq: "check_dependencies_on layers ?twice out = check_dependencies_on layers ?once out"
  proof -
    from eq have "violations_of layers ?twice = violations_of layers ?once"
      "warnings_of layers ?twice = warnings_of layers ?once"
      by (simp_all add: run [of ?twice] run [of ?once])
    with count show ?thesis by (simp split: if_splits)
  qed
  have upward: "violations_of layers ?twice =
          violations_of layers (pre @ [(s, ds1)])
          @ [\<lparr>service = s, service_layer = ls, dependency = d, dependency_layer = ld,
               violation = (ls, ld)\<rparr>]
          @ violations_of layers [(s, ds2)]
          @ [\<lparr>service = s, service_layer = ls, dependency = d, dependency_layer = ld,
               violation = (ls, ld)\<rparr>]
          @ violations_of layers ((s, ds3) # post)
        \<and> violations_of layers ?once =
          violations_of layers (pre @ [(s, ds1)])
          @ [\<lparr>service = s, service_layer = ls, dependency = d, dependency_layer = ld,
               violation = (ls, ld)\<rparr>]
          @ violations_of layers [(s, ds2)]
          @ violations_of layers ((s, ds3) # post)
        \<and> warnings_of layers ?twice = warnings_of layers ?once"
    if "layers s = Some ls" "layers d = Some ld" "ls < ld"
    using that
    by (simp add: violations_of_eq warnings_of_eq source_violations_def source_warnings_def
        edge_violations_def edge_warnings_def)
  have unknown: "warnings_of layers ?twice =
          warnings_of layers (pre @ [(s, ds1)]) @ [WarnDependency d]
          @ warnings_of layers [(s, ds2)] @ [WarnDependency d]
          @ warnings_of layers ((s, ds3) # post)
        \<and> warnings_of layers ?once =
          warnings_of layers (pre @ [(s, ds1)]) @ [WarnDependency d]
          @ warnings_of layers [(s, ds2)]
          @ warnings_of layers ((s, ds3) # post)
        \<and> violations_of layers ?twice = violations_of layers ?once"
    if "layers s = Some ls" "layers d = None" "d \<noteq> ''eventBus''" "d \<noteq> ''stateManager''"
    using that
    by (simp add: violations_of_eq warnings_of_eq source_violations_def source_warnings_def
        edge_violations_def edge_warnings_def)
  from same differ count upward unknown show ?thesis by blast
qed

theorem duplicate_edge_repeats_witness:
  "quiet_edge (map_of [(''A'', 2), (''B'', 1)]) ''A'' ''B''
   \<and> check_dependencies_on (map_of [(''A'', 2), (''B'', 1)]) [(''A'', [''B'', ''B''])] [] =
       check_dependencies_on (map_of [(''A'', 2), (''B'', 1)]) [(''A'', [''B''])] []
   \<and> map_of [(''A'', 1::int), (''B'', 2)] ''A'' = Some 1
   \<and> map_of [(''A'', 1::int), (''B'', 2)] ''B'' = Some 2 \<and> (1::int) < 2
   \<and> violations_of (map_of [(''A'', 1), (''B'', 2)]) [(''A'', [''B'', ''B''])] =
       [\<lparr>service = ''A'', service_layer = 1, dependency = ''B'', dependency_layer = 2,
          violation = (1, 2)\<rparr>,
        \<lparr>service = ''A'', service_layer = 1, dependency = ''B'', dependency_layer = 2,
          violation = (1, 2)\<rparr>]
   \<and> map_of [(''A'', 1::int)] ''A'' = Some 1 \<and> map_of [(''A'', 1::int)] ''Z'' = None
   \<and> ''Z'' \<noteq> ''eventBus'' \<and> ''Z'' \<noteq> ''stateManager''
   \<and> \<not> quiet_edge (map_of [(''A'', 1)]) ''A'' ''Z''
   \<and> warnings_of (map_of [(''A'', 1)]) [(''A'', [''Z'', ''Z''])] =
       [WarnDependency ''Z'', WarnDependency ''Z'']
   \<and> check_dependencies_on (map_of [(''A'', 1)]) [(''A'', [''Z'', ''Z''])] [] \<noteq>
       check_dependencies_on (map_of [(''A'', 1)]) [(''A'', [''Z''])] []"
proof -
  have e: "violations_of layers [] = []" "violations_of layers [(''A'', [])] = []" for layers
    by (simp_all add: violations_of_eq source_violations_def split: option.split)
  from duplicate_edge_repeats [of "map_of [(''A'', 2), (''B'', 1)]" "[]" "''A''" "[]" "''B''"
        "[]" "[]" "[]" "[]"]
  have a: "quiet_edge (map_of [(''A'', 2), (''B'', 1)]) ''A'' ''B''
     \<and> check_dependencies_on (map_of [(''A'', 2), (''B'', 1)]) [(''A'', [''B'', ''B''])] [] =
       check_dependencies_on (map_of [(''A'', 2), (''B'', 1)]) [(''A'', [''B''])] []"
    by (simp add: quiet_edge_def)
  from duplicate_edge_repeats [of "map_of [(''A'', 1), (''B'', 2)]" "[]" "''A''" "[]" "''B''"
        "[]" "[]" "[]" "[]" 1 2]
  have b: "violations_of (map_of [(''A'', 1), (''B'', 2)]) [(''A'', [''B'', ''B''])] =
       [\<lparr>service = ''A'', service_layer = 1, dependency = ''B'', dependency_layer = 2,
          violation = (1, 2)\<rparr>,
        \<lparr>service = ''A'', service_layer = 1, dependency = ''B'', dependency_layer = 2,
          violation = (1, 2)\<rparr>]"
    by (simp add: e)
  from duplicate_edge_repeats [of "map_of [(''A'', 1)]" "[]" "''A''" "[]" "''Z''"
        "[]" "[]" "[]" "[]" 1]
  have c: "\<not> quiet_edge (map_of [(''A'', 1)]) ''A'' ''Z''
     \<and> warnings_of (map_of [(''A'', 1)]) [(''A'', [''Z'', ''Z''])] =
       [WarnDependency ''Z'', WarnDependency ''Z'']
     \<and> check_dependencies_on (map_of [(''A'', 1)]) [(''A'', [''Z'', ''Z''])] [] \<noteq>
       check_dependencies_on (map_of [(''A'', 1)]) [(''A'', [''Z''])] []"
    by (simp add: quiet_edge_def warnings_of_eq source_warnings_def edge_warnings_def)
  from a b c show ?thesis by simp
qed

text \<open>
  An upward edge listed twice is returned twice, and once when it is listed once.
\<close>

theorem duplicate_edge_counterexample:
  "check_dependencies_on (map_of [(''A'', 1), (''B'', 2)]) [(''A'', [''B'', ''B''])] [] =
     ([\<lparr>service = ''A'', service_layer = 1, dependency = ''B'', dependency_layer = 2,
        violation = (1, 2)\<rparr>,
       \<lparr>service = ''A'', service_layer = 1, dependency = ''B'', dependency_layer = 2,
        violation = (1, 2)\<rparr>], [])
   \<and> check_dependencies_on (map_of [(''A'', 1), (''B'', 2)]) [(''A'', [''B''])] [] =
     ([\<lparr>service = ''A'', service_layer = 1, dependency = ''B'', dependency_layer = 2,
        violation = (1, 2)\<rparr>], [])"
  by (simp add: check_dependencies_on_eq source_violations_def source_warnings_def
      edge_violations_def edge_warnings_def)

text \<open>
  C9. A run depends on the layer table and the dependency table only. Whatever standard
  output held before, the run returns the same list of violations, keeps the earlier output
  as it was and adds the same warnings in the same order; a second run after the first
  returns the same list again and prints the same warnings again.
\<close>

theorem run_independent_of_earlier_output:
  "fst (check_dependencies_on layers deps out1) = fst (check_dependencies_on layers deps out2)
   \<and> take (length out1) (snd (check_dependencies_on layers deps out1)) = out1
   \<and> drop (length out1) (snd (check_dependencies_on layers deps out1)) =
       drop (length out2) (snd (check_dependencies_on layers deps out2))
   \<and> check_dependencies_on layers deps (snd (check_dependencies_on layers deps out1)) =
       (fst (check_dependencies_on layers deps out1),
        out1 @ warnings_of layers deps @ warnings_of layers deps)"
  by (simp add: check_dependencies_on_eq warnings_of_eq)

theorem run_independent_of_earlier_output_witness:
  "fst (check_dependencies_on (map_of [(''A'', 1)]) [(''A'', [''Z''])] [Rule]) =
     fst (check_dependencies_on (map_of [(''A'', 1)]) [(''A'', [''Z''])] [])
   \<and> check_dependencies_on (map_of [(''A'', 1)]) [(''A'', [''Z''])]
        (snd (check_dependencies_on (map_of [(''A'', 1)]) [(''A'', [''Z''])] [Rule])) =
      ([], [Rule, WarnDependency ''Z'', WarnDependency ''Z''])"
  using run_independent_of_earlier_output [of "map_of [(''A'', 1)]" "[(''A'', [''Z''])]" "[Rule]" "[]"]
  by (simp add: check_dependencies_on_eq warnings_of_eq source_violations_def source_warnings_def
      edge_violations_def edge_warnings_def)

text \<open>
  C10. On the two tables written in the script, \<open>check_dependencies\<close> returns the empty
  list and prints nothing; the script prints the banner and the four lines of the
  success report and exits with status 0; every declared dependency is \<open>eventBus\<close>,
  \<open>stateManager\<close>, or a registered service whose layer is at most the layer of the
  registered source.
\<close>

theorem tables_have_no_violation:
  "check_dependencies out = ([], out)
   \<and> script = (0, [Rule, Title, Rule, Blank, OkNoViolation, Blank, OkDirection, OkSameOrLower,
              OkNoUpward, Rule])
   \<and> list_all (\<lambda>e. list_all (\<lambda>d. d = ''eventBus'' \<or> d = ''stateManager'' \<or>
       (case SERVICE_LAYERS (fst e) of None \<Rightarrow> False
        | Some ls \<Rightarrow> (case SERVICE_LAYERS d of None \<Rightarrow> False | Some ld \<Rightarrow> ld \<le> ls))) (snd e))
     DEPENDENCIES"
proof -
  have "check_dependencies out =
          (violations_of SERVICE_LAYERS DEPENDENCIES, out @ warnings_of SERVICE_LAYERS DEPENDENCIES)"
    by (simp add: check_dependencies_def check_dependencies_on_eq violations_of_eq warnings_of_eq)
  then have "check_dependencies out = ([], out)"
    by (simp add: tables_violations tables_warnings)
  with tables_script tables_compliant show ?thesis by blast
qed

theorem tables_have_no_violation_witness:
  "check_dependencies [] = ([], []) \<and> fst script = 0"
proof -
  note t = tables_have_no_violation [of "[]"]
  from t have c: "check_dependencies [] = ([], [])" by (rule conjunct1)
  from t have "script = (0, [Rule, Title, Rule, Blank, OkNoViolation, Blank, OkDirection,
      OkSameOrLower, OkNoUpward, Rule])"
    by (rule conjunct1 [OF conjunct2])
  then have "fst script = 0" by (metis fst_conv)
  with c show ?thesis by simp
qed

end
